theory Spec2Isabelle
  imports Complex_Main "HOL-Library.Multiset" "HOL-Library.AList"
begin

section \<open>JavaScript numbers\<close>

text \<open>
  A JavaScript number is modelled by its exact value: \<open>NaN\<close>, the two infinities, or a
  finite value kept as a rational. The two zeros are one value. Comparison, \<open>Math.min\<close>,
  \<open>Math.max\<close> and the sign of a difference are then exactly those of IEEE doubles. Where
  the code reads a number from text (\<open>parseFloat\<close>, \<open>JSON.parse\<close>, \<open>toFixed\<close>) the
  value is rounded to the nearest double by \<open>to_double\<close> below. A difference is used for
  its sign only (by the sort), so it is not rounded.
\<close>

datatype number = NaN | NegInf | Fin rat | PosInf

text \<open>\<open>a <= b\<close>; \<open>a >= b\<close> is \<open>num_le b a\<close>.\<close>

fun num_le :: "number \<Rightarrow> number \<Rightarrow> bool" where
  "num_le NaN b = False"
| "num_le a NaN = False"
| "num_le NegInf b = True"
| "num_le a PosInf = True"
| "num_le (Fin x) (Fin y) = (x \<le> y)"
| "num_le PosInf b = False"
| "num_le a NegInf = False"

definition Math_min :: "number \<Rightarrow> number \<Rightarrow> number" where
  "Math_min a b = (if a = NaN \<or> b = NaN then NaN else if num_le a b then a else b)"

definition Math_max :: "number \<Rightarrow> number \<Rightarrow> number" where
  "Math_max a b = (if a = NaN \<or> b = NaN then NaN else if num_le a b then b else a)"

text \<open>\<open>a - b\<close>.\<close>

fun num_sub :: "number \<Rightarrow> number \<Rightarrow> number" where
  "num_sub NaN b = NaN"
| "num_sub a NaN = NaN"
| "num_sub (Fin x) (Fin y) = Fin (x - y)"
| "num_sub PosInf PosInf = NaN"
| "num_sub NegInf NegInf = NaN"
| "num_sub PosInf b = PosInf"
| "num_sub NegInf b = NegInf"
| "num_sub (Fin x) PosInf = NegInf"
| "num_sub (Fin x) NegInf = PosInf"

fun num_neg :: "number \<Rightarrow> number" where
  "num_neg NaN = NaN"
| "num_neg NegInf = PosInf"
| "num_neg (Fin x) = Fin (- x)"
| "num_neg PosInf = NegInf"



text \<open>\<open>ToNumber\<close> of a possibly undefined number, as in \<open>(a.age as number) - ...\<close>.\<close>

fun as_number :: "number option \<Rightarrow> number" where
  "as_number None = NaN"
| "as_number (Some n) = n"

subsection \<open>Rounding to a double\<close>

text \<open>
  \<open>binade a\<close> is the \<open>e\<close> with \<open>2^e \<le> a < 2^(e+1)\<close> for a positive \<open>a\<close>. The doubles
  around \<open>a\<close> are the multiples of \<open>2^(e-52)\<close>, of \<open>2^(-1074)\<close> in the subnormal range.
  \<open>double_magnitude\<close> takes the nearest one, the one with the even significand on a
  tie; \<open>to_double\<close> gives it the sign, and gives an infinity when it reaches \<open>2^1024\<close>.
\<close>

fun log2_nat :: "nat \<Rightarrow> nat" where
  "log2_nat n = (if n < 2 then 0 else Suc (log2_nat (n div 2)))"

declare log2_nat.simps [simp del]

definition pow2 :: "int \<Rightarrow> rat" where
  "pow2 e = (if 0 \<le> e then 2 ^ nat e else 1 / 2 ^ nat (- e))"

definition binade :: "rat \<Rightarrow> int" where
  "binade a =
     (if 1 \<le> a then int (log2_nat (nat \<lfloor>a\<rfloor>))
      else - int (Suc (log2_nat (nat \<lceil>1 / a\<rceil> - 1))))"

definition round_half_even :: "rat \<Rightarrow> int" where
  "round_half_even x =
     (if x - of_int \<lfloor>x\<rfloor> < 1 / 2 then \<lfloor>x\<rfloor>
      else if 1 / 2 < x - of_int \<lfloor>x\<rfloor> then \<lfloor>x\<rfloor> + 1
      else if even \<lfloor>x\<rfloor> then \<lfloor>x\<rfloor> else \<lfloor>x\<rfloor> + 1)"

definition ulp_exponent :: "rat \<Rightarrow> int" where
  "ulp_exponent a = max (binade a - 52) (- 1074)"

definition double_magnitude :: "rat \<Rightarrow> rat" where
  "double_magnitude a = of_int (round_half_even (a / pow2 (ulp_exponent a))) * pow2 (ulp_exponent a)"

definition to_double :: "rat \<Rightarrow> number" where
  "to_double x =
     (if x = 0 then Fin 0
      else if 1024 \<le> binade (double_magnitude \<bar>x\<bar>) then (if x < 0 then NegInf else PosInf)
      else Fin (sgn x * double_magnitude \<bar>x\<bar>))"

subsection \<open>\<open>Array.prototype.sort\<close> with a comparator\<close>

text \<open>
  The sort is stable (ECMAScript 2019). A comparator result that is positive puts the
  first argument after the second; zero, negative and \<open>NaN\<close> results keep it before.
  The model is the stable insertion sort, which is what every conforming engine computes
  for a comparator that is a difference of keys.
\<close>

fun is_positive :: "number \<Rightarrow> bool" where
  "is_positive PosInf = True"
| "is_positive (Fin r) = (0 < r)"
| "is_positive n = False"

fun sort_insert :: "('a \<Rightarrow> 'a \<Rightarrow> number) \<Rightarrow> 'a \<Rightarrow> 'a list \<Rightarrow> 'a list" where
  "sort_insert cmp x [] = [x]"
| "sort_insert cmp x (y # ys) =
     (if is_positive (cmp x y) then y # sort_insert cmp x ys else x # y # ys)"

definition js_sort :: "('a \<Rightarrow> 'a \<Rightarrow> number) \<Rightarrow> 'a list \<Rightarrow> 'a list" where
  "js_sort cmp xs = foldr (sort_insert cmp) xs []"

subsection \<open>\<open>parseFloat\<close>\<close>

text \<open>
  \<open>parseFloat\<close> skips leading white space and reads the longest prefix that is a
  \<open>StrDecimalLiteral\<close>: an optional sign, then \<open>Infinity\<close> or decimal digits with an
  optional fraction and exponent, and gives the double nearest its value. Without such
  a prefix the result is \<open>NaN\<close>; nothing is ever raised. A string is a sequence of code
  units below 256; the white space among them is TAB, LF, VT, FF, CR, SP and NBSP.
\<close>

definition is_digit :: "char \<Rightarrow> bool" where
  "is_digit c = (c \<in> set ''0123456789'')"

definition is_white :: "char \<Rightarrow> bool" where
  "is_white c = ((of_char c :: nat) \<in> {9, 10, 11, 12, 13, 32, 160})"

definition digits_val :: "string \<Rightarrow> nat" where
  "digits_val ds = fold (\<lambda>c n. 10 * n + ((of_char c :: nat) - 48)) ds 0"

definition exponent_digits :: "string \<Rightarrow> int option" where
  "exponent_digits s =
     (if takeWhile is_digit s = [] then None else Some (int (digits_val (takeWhile is_digit s))))"

definition parse_exponent :: "string \<Rightarrow> int" where
  "parse_exponent s =
     (case s of
        [] \<Rightarrow> 0
      | c # r \<Rightarrow>
          if c = CHR ''e'' \<or> c = CHR ''E'' then
            (case r of
               [] \<Rightarrow> 0
             | d # r' \<Rightarrow>
                 if d = CHR ''+'' then (case exponent_digits r' of None \<Rightarrow> 0 | Some e \<Rightarrow> e)
                 else if d = CHR ''-'' then (case exponent_digits r' of None \<Rightarrow> 0 | Some e \<Rightarrow> - e)
                 else (case exponent_digits r of None \<Rightarrow> 0 | Some e \<Rightarrow> e))
          else 0)"

definition decimal_value :: "string \<Rightarrow> string \<Rightarrow> int \<Rightarrow> rat" where
  "decimal_value ip fp e =
     of_nat (digits_val (ip @ fp)) / 10 ^ length fp
       * (if 0 \<le> e then 10 ^ nat e else 1 / 10 ^ nat (- e))"

definition parse_unsigned :: "string \<Rightarrow> number option" where
  "parse_unsigned s =
     (if take 8 s = ''Infinity'' then Some PosInf
      else
        let ip = takeWhile is_digit s; r1 = dropWhile is_digit s in
        (case r1 of
           [] \<Rightarrow> if ip = [] then None else Some (to_double (decimal_value ip [] 0))
         | c # r \<Rightarrow>
             if c = CHR ''.'' then
               (let fp = takeWhile is_digit r; r2 = dropWhile is_digit r in
                if ip = [] \<and> fp = [] then None
                else Some (to_double (decimal_value ip fp (parse_exponent r2))))
             else if ip = [] then None
             else Some (to_double (decimal_value ip [] (parse_exponent r1)))))"

definition numeric_prefix :: "string \<Rightarrow> number option" where
  "numeric_prefix s =
     (case dropWhile is_white s of
        [] \<Rightarrow> None
      | c # r \<Rightarrow>
          if c = CHR ''-'' then map_option num_neg (parse_unsigned r)
          else if c = CHR ''+'' then parse_unsigned r
          else parse_unsigned (c # r))"

definition parseFloat :: "string \<Rightarrow> number" where
  "parseFloat s = (case numeric_prefix s of None \<Rightarrow> NaN | Some n \<Rightarrow> n)"

section \<open>Data model\<close>

text \<open>
  A data point is an object with the two optional numeric keys \<open>depth\<close> and \<open>age\<close> and
  any number of further keys (the proxies), kept in insertion order. \<open>None\<close> is
  \<open>undefined\<close>.
\<close>

datatype pvalue = PNum number | PStr string | PBool bool | PNull

record DataPoint =
  depth :: "number option"
  age :: "number option"
  proxies :: "(string \<times> pvalue) list"

text \<open>
  Of a section the functions below read \<open>id\<close>, \<open>name\<close>, \<open>dataPoints\<close> and
  \<open>labAnalysis\<close>; every other field travels in \<open>metadata\<close>.
\<close>

record Section =
  id_sec :: string
  name :: string
  dataPoints :: "DataPoint list"
  labAnalysis :: "(string \<times> pvalue) list"
  metadata :: "(string \<times> pvalue) list"

record TiePoint =
  sectionId :: string
  tp_depth :: rat
  tp_age :: rat

text \<open>
  A bound of a splice interval is \<open>null\<close>, a number, or missing from the object
  (\<open>Absent\<close>, read as \<open>undefined\<close>).
\<close>

datatype bound = Absent | Null | Num number

record SpliceInterval =
  iv_sectionId :: "string option"
  startAge :: bound
  endAge :: bound

fun to_number :: "bound \<Rightarrow> number" where
  "to_number Absent = NaN"
| "to_number Null = Fin 0"
| "to_number (Num n) = n"

section \<open>The composite splice (CoreSynthesisView)\<close>

datatype interval_field = StartAge | EndAge

definition handleSpliceIntervalChange ::
  "(string \<rightharpoonup> SpliceInterval) \<Rightarrow> string \<Rightarrow> interval_field \<Rightarrow> string \<Rightarrow> (string \<rightharpoonup> SpliceInterval)" where
  "handleSpliceIntervalChange prev sid type val =
     (let numValue = (if val = [] then Null else Num (parseFloat val));
          old = (case prev sid of
                   None \<Rightarrow> \<lparr>iv_sectionId = None, startAge = Absent, endAge = Absent\<rparr>
                 | Some iv \<Rightarrow> iv)
      in prev(sid \<mapsto> (case type of
                         StartAge \<Rightarrow> old\<lparr>startAge := numValue\<rparr>
                       | EndAge \<Rightarrow> old\<lparr>endAge := numValue\<rparr>)))"

definition in_window :: "number \<Rightarrow> number \<Rightarrow> DataPoint \<Rightarrow> bool" where
  "in_window lo hi dp =
     (case age dp of None \<Rightarrow> False | Some a \<Rightarrow> num_le lo a \<and> num_le a hi)"

definition push_selected :: "number \<Rightarrow> number \<Rightarrow> DataPoint \<Rightarrow> DataPoint list \<Rightarrow> DataPoint list" where
  "push_selected lo hi dp allPoints = (if in_window lo hi dp then allPoints @ [dp] else allPoints)"

definition splice_section ::
  "(string \<rightharpoonup> SpliceInterval) \<Rightarrow> Section \<Rightarrow> DataPoint list \<Rightarrow> DataPoint list" where
  "splice_section spliceIntervals section allPoints =
     (case spliceIntervals (id_sec section) of
        None \<Rightarrow> allPoints
      | Some interval \<Rightarrow>
          if startAge interval \<noteq> Null \<and> endAge interval \<noteq> Null then
            fold (push_selected
                    (Math_min (to_number (startAge interval)) (to_number (endAge interval)))
                    (Math_max (to_number (startAge interval)) (to_number (endAge interval))))
                 (dataPoints section) allPoints
          else allPoints)"

definition age_cmp :: "DataPoint \<Rightarrow> DataPoint \<Rightarrow> number" where
  "age_cmp a b = num_sub (as_number (age a)) (as_number (age b))"

definition compositeSplice ::
  "Section list option \<Rightarrow> (string \<rightharpoonup> SpliceInterval) \<Rightarrow> DataPoint list" where
  "compositeSplice calibratedSections spliceIntervals =
     (case calibratedSections of
        None \<Rightarrow> []
      | Some secs \<Rightarrow> js_sort age_cmp (fold (splice_section spliceIntervals) secs []))"

section \<open>Age-model calibration (geminiService, generateAgeModel)\<close>

subsection \<open>The delegate's reply\<close>

text \<open>
  The reply of the generative service is an input of the model: the call throws, or it
  returns text that \<open>JSON.parse\<close> rejects, or text that parses to a JSON value. A JSON
  object is the list of its members, keys distinct. A JSON number is the exact value of
  its literal; \<open>JSON.parse\<close> makes it the nearest double (\<open>json_number\<close>).
\<close>

datatype json = JNull | JBool bool | JNum rat | JStr string | JArr "json list" | JObj "(string \<times> json) list"

datatype delegate_reply = CallFailed | NotJson | Json json

datatype js_error = ServiceError | SyntaxError | TypeError

text \<open>
  What \<open>generateAgeModel\<close> throws: the missing API key before the \<open>try\<close> block, and
  \<open>AI Age Model Error: ...\<close> for everything caught inside it.
\<close>

datatype failure = ApiKeyNotConfigured | AgeModelError js_error

text \<open>
  Reading one of the properties \<open>calibratedSections\<close>, \<open>id\<close>, \<open>dataPoints\<close>, \<open>depth\<close>,
  \<open>age\<close> of a parsed value: \<open>null\<close> throws, an object gives the member or
  \<open>undefined\<close> (\<open>None\<close>), every other value has no such property.
\<close>

fun js_get :: "json \<Rightarrow> string \<Rightarrow> js_error + json option" where
  "js_get JNull k = Inl TypeError"
| "js_get (JObj kvs) k = Inr (map_of kvs k)"
| "js_get v k = Inr None"

text \<open>The receiver of \<open>.find\<close> and \<open>.map\<close>: only an array has these methods.\<close>

fun as_array :: "json option \<Rightarrow> js_error + json list" where
  "as_array (Some (JArr xs)) = Inr xs"
| "as_array v = Inl TypeError"

fun truthy :: "json \<Rightarrow> bool" where
  "truthy JNull = False"
| "truthy (JBool b) = b"
| "truthy (JNum r) = (r \<noteq> 0)"
| "truthy (JStr s) = (s \<noteq> [])"
| "truthy v = True"

text \<open>\<open>calibratedSectionsFromAI.find((cs) => cs.id === originalSection.id)\<close>\<close>

fun find_section :: "string \<Rightarrow> json list \<Rightarrow> js_error + json option" where
  "find_section sid [] = Inr None"
| "find_section sid (cs # rest) =
     (case js_get cs ''id'' of
        Inl e \<Rightarrow> Inl e
      | Inr v \<Rightarrow> if v = Some (JStr sid) then Inr (Some cs) else find_section sid rest)"

text \<open>\<open>calibratedData.dataPoints.map((dp) => [dp.depth, dp.age])\<close>\<close>

fun age_entries :: "json list \<Rightarrow> js_error + (json option \<times> json option) list" where
  "age_entries [] = Inr []"
| "age_entries (dp # rest) =
     (case js_get dp ''depth'' of
        Inl e \<Rightarrow> Inl e
      | Inr d \<Rightarrow>
          (case js_get dp ''age'' of
             Inl e \<Rightarrow> Inl e
           | Inr a \<Rightarrow>
               (case age_entries rest of
                  Inl e \<Rightarrow> Inl e
                | Inr es \<Rightarrow> Inr ((d, a) # es))))"

definition json_number :: "rat \<Rightarrow> number" where
  "json_number q = to_double q"

text \<open>
  Key equality of \<open>Map\<close> (SameValueZero) between the depth of an original record and a
  key taken from the response.
\<close>

fun same_value_zero :: "number option \<Rightarrow> json option \<Rightarrow> bool" where
  "same_value_zero None None = True"
| "same_value_zero (Some n) (Some (JNum q)) = (n = json_number q)"
| "same_value_zero k j = False"

text \<open>\<open>new Map(entries).get(k)\<close>: a later entry replaces an earlier one with the same key.\<close>

definition ageMap_get :: "(json option \<times> json option) list \<Rightarrow> number option \<Rightarrow> json option" where
  "ageMap_get entries k =
     fold (\<lambda>e found. if same_value_zero k (fst e) then snd e else found) entries None"

text \<open>
  \<open>parseFloat(x.toFixed(4))\<close>: below \<open>10^21\<close> the magnitude of the double \<open>x\<close> is rounded
  to four decimals, a tie going away from zero, and the decimal is read back as a
  double; from \<open>10^21\<close> on \<open>toFixed\<close> prints the number itself. An infinity stays.
\<close>

fun toFixed4 :: "number \<Rightarrow> number" where
  "toFixed4 (Fin x) =
     (if 10 ^ 21 \<le> \<bar>x\<bar> then to_double x
      else to_double (sgn x * of_int \<lfloor>\<bar>x\<bar> * 10000 + 1 / 2\<rfloor> / 10000))"
| "toFixed4 n = n"

declare toFixed4.simps [simp del]

fun calculated_age :: "json option \<Rightarrow> number option" where
  "calculated_age (Some (JNum r)) = Some (toFixed4 (json_number r))"
| "calculated_age v = None"

definition merge_section :: "json option \<Rightarrow> Section \<Rightarrow> js_error + Section" where
  "merge_section calibratedSectionsFromAI originalSection =
     (case as_array calibratedSectionsFromAI of
        Inl e \<Rightarrow> Inl e
      | Inr css \<Rightarrow>
          (case find_section (id_sec originalSection) css of
             Inl e \<Rightarrow> Inl e
           | Inr None \<Rightarrow> Inr originalSection
           | Inr (Some calibratedData) \<Rightarrow>
               if truthy calibratedData then
                 (case js_get calibratedData ''dataPoints'' of
                    Inl e \<Rightarrow> Inl e
                  | Inr dps \<Rightarrow>
                      (case as_array dps of
                         Inl e \<Rightarrow> Inl e
                       | Inr arr \<Rightarrow>
                           (case age_entries arr of
                              Inl e \<Rightarrow> Inl e
                            | Inr entries \<Rightarrow>
                                Inr (originalSection\<lparr>dataPoints :=
                                  map (\<lambda>dp. dp\<lparr>age := calculated_age (ageMap_get entries (depth dp))\<rparr>)
                                      (dataPoints originalSection)\<rparr>))))
               else Inr originalSection))"

text \<open>\<open>xs.map(f)\<close> with a callback that may throw: the first throw ends the whole map.\<close>

fun map_all :: "('a \<Rightarrow> 'e + 'b) \<Rightarrow> 'a list \<Rightarrow> 'e + 'b list" where
  "map_all f [] = Inr []"
| "map_all f (x # xs) =
     (case f x of
        Inl e \<Rightarrow> Inl e
      | Inr y \<Rightarrow> (case map_all f xs of Inl e \<Rightarrow> Inl e | Inr ys \<Rightarrow> Inr (y # ys)))"

text \<open>
  \<open>apiKey\<close> says whether the API key is configured. The tie-points go into the prompt
  only; the merge reads the sections and the reply.
\<close>

definition generateAgeModel ::
  "bool \<Rightarrow> delegate_reply \<Rightarrow> Section list \<Rightarrow> TiePoint list \<Rightarrow> failure + Section list" where
  "generateAgeModel apiKey reply sections tiePoints =
     (if \<not> apiKey then Inl ApiKeyNotConfigured
      else
        (case reply of
           CallFailed \<Rightarrow> Inl (AgeModelError ServiceError)
         | NotJson \<Rightarrow> Inl (AgeModelError SyntaxError)
         | Json jsonResponse \<Rightarrow>
             (case js_get jsonResponse ''calibratedSections'' of
                Inl e \<Rightarrow> Inl (AgeModelError e)
              | Inr calibratedSectionsFromAI \<Rightarrow>
                  (case map_all (merge_section calibratedSectionsFromAI) sections of
                     Inl e \<Rightarrow> Inl (AgeModelError e)
                   | Inr finalSections \<Rightarrow> Inr finalSections))))"

text \<open>
  The caller in CoreSynthesisView: with fewer than two tie-points nothing is requested;
  a result replaces the calibrated sections, a failure leaves them as they were.
\<close>

definition handleGenerateAgeModel ::
  "bool \<Rightarrow> delegate_reply \<Rightarrow> Section list \<Rightarrow> TiePoint list \<Rightarrow> Section list option \<Rightarrow> Section list option" where
  "handleGenerateAgeModel apiKey reply sections tiePoints calibratedSections =
     (if length tiePoints < 2 then calibratedSections
      else
        (case generateAgeModel apiKey reply sections tiePoints of
           Inl e \<Rightarrow> calibratedSections
         | Inr result \<Rightarrow> Some result))"

subsection \<open>The interpolation rule asked of the delegate\<close>

text \<open>
  Modelled from the spec: the Interpolation Engine. The repository holds no
  implementation of it; \<open>generateAgeModel\<close> states the rule in its system instruction and
  leaves the computation to the generative service. The definitions below follow the
  specification's algorithm: fewer than two tie-points give no age; otherwise the
  tie-points are sorted by depth, a depth inside their range is interpolated on the
  bracketing pair, a depth below (above) the range is extrapolated on the two smallest
  (largest) tie-points.
\<close>

definition line_through :: "rat \<times> rat \<Rightarrow> rat \<times> rat \<Rightarrow> rat \<Rightarrow> rat" where
  "line_through p0 p1 d = snd p0 + (snd p1 - snd p0) * (d - fst p0) / (fst p1 - fst p0)"

fun interp_sorted :: "(rat \<times> rat) list \<Rightarrow> rat \<Rightarrow> rat option" where
  "interp_sorted (p0 # p1 # ps) d =
     (if d \<le> fst p1 \<or> ps = [] then Some (line_through p0 p1 d) else interp_sorted (p1 # ps) d)"
| "interp_sorted ps d = None"

definition interpolate :: "(rat \<times> rat) list \<Rightarrow> rat \<Rightarrow> rat option" where
  "interpolate ties d = (if length ties < 2 then None else interp_sorted (sort_key fst ties) d)"

definition section_ties :: "TiePoint list \<Rightarrow> string \<Rightarrow> (rat \<times> rat) list" where
  "section_ties tiePoints sid =
     map (\<lambda>tp. (tp_depth tp, tp_age tp)) (filter (\<lambda>tp. sectionId tp = sid) tiePoints)"

text \<open>
  Modelled from the spec: the response of a delegate that honours the contract. It is
  sent \<open>id\<close>, \<open>name\<close> and the depths of every section, and answers with one entry per
  section, one data point per depth, with an \<open>age\<close> where the rule gives one. The
  tie-points are the values it reads in the prompt; it writes the exact result.
\<close>

fun rule_members :: "(rat \<times> rat) list \<Rightarrow> number option \<Rightarrow> (string \<times> json) list" where
  "rule_members ties None = []"
| "rule_members ties (Some (Fin d)) =
     (case interpolate ties d of
        None \<Rightarrow> [(''depth'', JNum d)]
      | Some a \<Rightarrow> [(''depth'', JNum d), (''age'', JNum a)])"
| "rule_members ties (Some n) = [(''depth'', JNull)]"

definition rule_entry :: "TiePoint list \<Rightarrow> Section \<Rightarrow> json" where
  "rule_entry tiePoints s =
     JObj [(''id'', JStr (id_sec s)),
           (''dataPoints'',
              JArr (map (\<lambda>dp. JObj (rule_members (section_ties tiePoints (id_sec s)) (depth dp)))
                        (dataPoints s)))]"


text \<open>The age the rule gives a record, after the merge has rounded it.\<close>

fun rule_age :: "(rat \<times> rat) list \<Rightarrow> number option \<Rightarrow> number option" where
  "rule_age ties (Some (Fin d)) = map_option (\<lambda>a. toFixed4 (json_number a)) (interpolate ties d)"
| "rule_age ties k = None"

section \<open>Entering data points (DataInputManager)\<close>






text \<open>
  \<open>{...a, ...b}\<close> for a \<open>b\<close> that holds no key with the value \<open>undefined\<close>, which is the
  case of a point read from the form or from a CSV row.
\<close>

definition spread_merge :: "DataPoint \<Rightarrow> DataPoint \<Rightarrow> DataPoint" where
  "spread_merge a b =
     \<lparr>depth = (case depth b of None \<Rightarrow> depth a | Some d \<Rightarrow> Some d),
      age = (case age b of None \<Rightarrow> age a | Some g \<Rightarrow> Some g),
      proxies = fold (\<lambda>kv ps. AList.update (fst kv) (snd kv) ps) (proxies b) (proxies a)\<rparr>"






text \<open>
  The merge of parsed CSV rows in \<open>handleConfirmMapping\<close>. The \<open>Map\<close> from depth to point
  keeps insertion order; \<open>set\<close> on a present key replaces the value in place.
\<close>

definition empty_point :: DataPoint where
  "empty_point = \<lparr>depth = None, age = None, proxies = []\<rparr>"





section \<open>Specification-side definitions\<close>

text \<open>The order used to state that a list is sorted by a numeric key.\<close>

definition key_le :: "('a \<Rightarrow> number) \<Rightarrow> 'a \<Rightarrow> 'a \<Rightarrow> bool" where
  "key_le key a b = num_le (key a) (key b)"

definition age_key :: "DataPoint \<Rightarrow> number" where
  "age_key dp = as_number (age dp)"


text \<open>
  The composite as the specification words it: the window of a section is
  \<open>[min, max]\<close> of its two bounds when both are set, and a record is selected when its
  age is defined and lies in the window.
\<close>

definition spec_window :: "SpliceInterval option \<Rightarrow> (number \<times> number) option" where
  "spec_window interval =
     (case interval of
        None \<Rightarrow> None
      | Some iv \<Rightarrow>
          (case (startAge iv, endAge iv) of
             (Num a, Num b) \<Rightarrow> Some (Math_min a b, Math_max a b)
           | _ \<Rightarrow> None))"

definition spec_selected :: "(string \<rightharpoonup> SpliceInterval) \<Rightarrow> Section \<Rightarrow> DataPoint \<Rightarrow> bool" where
  "spec_selected intervals s dp =
     (case spec_window (intervals (id_sec s)) of
        None \<Rightarrow> False
      | Some (lo, hi) \<Rightarrow> (case age dp of None \<Rightarrow> False | Some a \<Rightarrow> num_le lo a \<and> num_le a hi))"

definition spec_concat :: "Section list \<Rightarrow> (string \<rightharpoonup> SpliceInterval) \<Rightarrow> DataPoint list" where
  "spec_concat secs intervals =
     concat (map (\<lambda>s. filter (spec_selected intervals s) (dataPoints s)) secs)"

text \<open>
  What a calibration must leave alone: a section with the ages of its records forgotten.
\<close>

definition forget_ages :: "Section \<Rightarrow> Section" where
  "forget_ages s = s\<lparr>dataPoints := map (\<lambda>dp. dp\<lparr>age := None\<rparr>) (dataPoints s)\<rparr>"

text \<open>
  Reading the delegate's response without failing: the member of a value, the first
  entry with a given section id, its data points, and the last of them whose depth is
  the depth of a record.
\<close>

definition member :: "json \<Rightarrow> string \<Rightarrow> json option" where
  "member v k = (case js_get v k of Inl e \<Rightarrow> None | Inr x \<Rightarrow> x)"

definition listed_entry :: "json \<Rightarrow> string \<Rightarrow> json option" where
  "listed_entry resp sid =
     (case member resp ''calibratedSections'' of
        Some (JArr css) \<Rightarrow> List.find (\<lambda>cs. member cs ''id'' = Some (JStr sid)) css
      | _ \<Rightarrow> None)"

definition entry_points :: "json \<Rightarrow> json list" where
  "entry_points entry = (case member entry ''dataPoints'' of Some (JArr dps) \<Rightarrow> dps | _ \<Rightarrow> [])"

definition same_depth :: "DataPoint \<Rightarrow> json \<Rightarrow> bool" where
  "same_depth dp p = same_value_zero (depth dp) (member p ''depth'')"

definition numeric_age :: "json \<Rightarrow> bool" where
  "numeric_age p = (case member p ''age'' of Some (JNum r) \<Rightarrow> True | _ \<Rightarrow> False)"

definition last_match_age :: "DataPoint \<Rightarrow> json list \<Rightarrow> json option" where
  "last_match_age dp ps =
     (case filter (same_depth dp) ps of [] \<Rightarrow> None | m # ms \<Rightarrow> member (last (m # ms)) ''age'')"




text \<open>
  The CSV merge, record by record: of the existing records with depth \<open>k\<close> the \<open>Map\<close>
  keeps the last one, and the rows with depth \<open>k\<close> are spread over it one after the other
  (over an empty record when there is none). Rows without depth are never merged.
\<close>

definition last_with_depth :: "DataPoint list \<Rightarrow> number option \<Rightarrow> DataPoint option" where
  "last_with_depth existing k =
     (case filter (\<lambda>p. depth p = k) existing of [] \<Rightarrow> None | p # ps \<Rightarrow> Some (last (p # ps)))"

definition merged_record :: "DataPoint option \<Rightarrow> DataPoint list \<Rightarrow> DataPoint option" where
  "merged_record start rs =
     (if rs = [] then start
      else Some (fold (\<lambda>r acc. spread_merge acc r) rs
                   (case start of None \<Rightarrow> empty_point | Some e \<Rightarrow> e)))"

definition rows_with_depth :: "DataPoint list \<Rightarrow> number option \<Rightarrow> DataPoint list" where
  "rows_with_depth rows k = (if k = None then [] else filter (\<lambda>r. depth r = k) rows)"

definition merged_at :: "DataPoint list \<Rightarrow> DataPoint list \<Rightarrow> number option \<Rightarrow> DataPoint option" where
  "merged_at existing rows k = merged_record (last_with_depth existing k) (rows_with_depth rows k)"


section \<open>Example data\<close>

definition ex_point :: "rat \<Rightarrow> DataPoint" where
  "ex_point a = \<lparr>depth = Some (Fin (a / 10)), age = Some (Fin a), proxies = [(''delta18O'', PNum (Fin 3))]\<rparr>"

definition ex_section :: "string \<Rightarrow> rat list \<Rightarrow> Section" where
  "ex_section sid ages = \<lparr>id_sec = sid, name = sid, dataPoints = map ex_point ages, labAnalysis = [], metadata = []\<rparr>"

definition ex_interval :: "string \<Rightarrow> rat \<Rightarrow> rat \<Rightarrow> SpliceInterval" where
  "ex_interval sid a b = \<lparr>iv_sectionId = Some sid, startAge = Num (Fin a), endAge = Num (Fin b)\<rparr>"

definition ex_s1 :: Section where
  "ex_s1 = \<lparr>id_sec = ''S1'', name = ''Hole A'', dataPoints = [
      \<lparr>depth = Some (Fin 5), age = Some (Fin 7), proxies = [(''delta18O'', PNum (Fin 3))]\<rparr>,
      \<lparr>depth = Some (Fin 15), age = None, proxies = [(''delta18O'', PNum (Fin 4))]\<rparr>],
      labAnalysis = [], metadata = [(''epoch'', PStr ''Holocene'')]\<rparr>"

definition ex_s2 :: Section where
  "ex_s2 = \<lparr>id_sec = ''S2'', name = ''Hole B'', dataPoints = [
      \<lparr>depth = Some (Fin 1), age = Some (Fin 42), proxies = [(''tex86'', PNum (Fin 1))]\<rparr>],
      labAnalysis = [], metadata = []\<rparr>"

definition ex_ties :: "TiePoint list" where
  "ex_ties = [\<lparr>sectionId = ''S1'', tp_depth = 10, tp_age = 100\<rparr>,
              \<lparr>sectionId = ''S1'', tp_depth = 20, tp_age = 200\<rparr>]"

definition ex_entry :: json where
  "ex_entry = JObj [(''id'', JStr ''S1''), (''dataPoints'', JArr [
       JObj [(''depth'', JNum 15), (''age'', JNum 151)],
       JObj [(''depth'', JNum 5), (''age'', JStr ''abc'')]])]"

definition ex_resp :: json where
  "ex_resp = JObj [(''calibratedSections'', JArr [ex_entry])]"

definition ex_dup_entry :: json where
  "ex_dup_entry = JObj [(''id'', JStr ''S1''), (''dataPoints'', JArr [
       JObj [(''depth'', JNum 15), (''age'', JNum 150)],
       JObj [(''depth'', JNum 15), (''age'', JNull)]])]"

definition ex_dup_resp :: json where
  "ex_dup_resp = JObj [(''calibratedSections'', JArr [ex_dup_entry])]"

definition ex_noid_resp :: json where
  "ex_noid_resp = JObj [(''calibratedSections'', JArr [
       JObj [(''dataPoints'', JArr [JObj [(''depth'', JNum 15), (''age'', JNum 150)]])]])]"

definition ex_s1_merged :: Section where
  "ex_s1_merged = ex_s1\<lparr>dataPoints := [
      \<lparr>depth = Some (Fin 5), age = None, proxies = [(''delta18O'', PNum (Fin 3))]\<rparr>,
      \<lparr>depth = Some (Fin 15), age = Some (Fin 151), proxies = [(''delta18O'', PNum (Fin 4))]\<rparr>]\<rparr>"

definition ex_s1_erased :: Section where
  "ex_s1_erased = ex_s1\<lparr>dataPoints := [
      \<lparr>depth = Some (Fin 5), age = None, proxies = [(''delta18O'', PNum (Fin 3))]\<rparr>,
      \<lparr>depth = Some (Fin 15), age = None, proxies = [(''delta18O'', PNum (Fin 4))]\<rparr>]\<rparr>"



definition ex_s2_erased :: Section where
  "ex_s2_erased = ex_s2\<lparr>dataPoints := [
      \<lparr>depth = Some (Fin 1), age = None, proxies = [(''tex86'', PNum (Fin 1))]\<rparr>]\<rparr>"

definition ex_s2_invented :: Section where
  "ex_s2_invented = ex_s2\<lparr>dataPoints := [
      \<lparr>depth = Some (Fin 1), age = Some (Fin 5), proxies = [(''tex86'', PNum (Fin 1))]\<rparr>]\<rparr>"







definition ex_row :: DataPoint where
  "ex_row = \<lparr>depth = Some (Fin 5), age = Some (Fin 9), proxies = [(''tex86'', PNum (Fin 1))]\<rparr>"

definition ex_row_again :: DataPoint where
  "ex_row_again = \<lparr>depth = Some (Fin 5), age = None, proxies = [(''tex86'', PNum (Fin 2))]\<rparr>"

definition ex_row_fresh :: DataPoint where
  "ex_row_fresh = \<lparr>depth = Some (Fin 1), age = None, proxies = [(''tex86'', PNum (Fin 2))]\<rparr>"


definition ex_row_undated :: DataPoint where
  "ex_row_undated = \<lparr>depth = None, age = Some (Fin 3), proxies = [(''tex86'', PNum (Fin 2))]\<rparr>"

definition ex_p5 :: DataPoint where
  "ex_p5 = \<lparr>depth = Some (Fin 5), age = Some (Fin 7), proxies = [(''delta18O'', PNum (Fin 3))]\<rparr>"

definition ex_p15 :: DataPoint where
  "ex_p15 = \<lparr>depth = Some (Fin 15), age = None, proxies = [(''delta18O'', PNum (Fin 4))]\<rparr>"





definition ex_p5_merged_twice :: DataPoint where
  "ex_p5_merged_twice = \<lparr>depth = Some (Fin 5), age = Some (Fin 9),
     proxies = [(''delta18O'', PNum (Fin 3)), (''tex86'', PNum (Fin 2))]\<rparr>"

definition ex_extra_resp :: json where
  "ex_extra_resp = JObj [(''note'', JStr ''two entries for S1''),
                         (''calibratedSections'', JArr [ex_entry, ex_dup_entry])]"






definition ex_null_entry :: json where
  "ex_null_entry = JObj [(''id'', JStr ''S2''), (''dataPoints'', JArr [
       JObj [(''depth'', JNum 1), (''age'', JNull)]])]"

definition ex_null_resp :: json where
  "ex_null_resp = JObj [(''calibratedSections'', JArr [ex_null_entry])]"

definition ex_invent_entry :: json where
  "ex_invent_entry = JObj [(''id'', JStr ''S2''), (''dataPoints'', JArr [
       JObj [(''depth'', JNum 1), (''age'', JNum 5)]])]"

definition ex_invent_resp :: json where
  "ex_invent_resp = JObj [(''calibratedSections'', JArr [ex_invent_entry])]"

section \<open>Facts about numbers and sorting\<close>

lemma num_le_trans: "num_le a b \<Longrightarrow> num_le b c \<Longrightarrow> num_le a c"
  by (cases a; cases b; cases c) auto

lemma num_le_total: "a \<noteq> NaN \<Longrightarrow> b \<noteq> NaN \<Longrightarrow> num_le a b \<or> num_le b a"
  by (cases a; cases b) auto

lemma num_le_antisym: "num_le a b \<Longrightarrow> num_le b a \<Longrightarrow> a = b"
  by (cases a; cases b) auto

lemma num_le_NaN [simp]: "\<not> num_le a NaN" "\<not> num_le NaN a"
  by (cases a; simp)+

lemma is_positive_sub:
  "a \<noteq> NaN \<Longrightarrow> b \<noteq> NaN \<Longrightarrow> is_positive (num_sub a b) = (\<not> num_le a b)"
  by (cases a; cases b) auto

lemma Math_min_commute: "Math_min a b = Math_min b a"
  by (auto simp: Math_min_def dest: num_le_antisym num_le_total)

lemma Math_max_commute: "Math_max a b = Math_max b a"
  by (auto simp: Math_max_def dest: num_le_antisym num_le_total)

lemma Math_min_NaN [simp]: "Math_min NaN b = NaN" "Math_min a NaN = NaN"
  by (auto simp: Math_min_def)

lemma Math_max_NaN [simp]: "Math_max NaN b = NaN" "Math_max a NaN = NaN"
  by (auto simp: Math_max_def)

lemma mset_sort_insert: "mset (sort_insert cmp x xs) = add_mset x (mset xs)"
  by (induction xs) auto

lemma mset_js_sort: "mset (js_sort cmp xs) = mset xs"
  by (induction xs) (auto simp: js_sort_def mset_sort_insert)

lemma set_sort_insert: "set (sort_insert cmp x xs) = insert x (set xs)"
  by (induction xs) auto

lemma set_js_sort: "set (js_sort cmp xs) = set xs"
  by (induction xs) (auto simp: js_sort_def set_sort_insert)


lemma sorted_sort_insert:
  assumes "sorted_wrt (key_le key) xs" and "key x \<noteq> NaN" and "\<forall>y\<in>set xs. key y \<noteq> NaN"
  shows "sorted_wrt (key_le key) (sort_insert (\<lambda>a b. num_sub (key a) (key b)) x xs)"
  using assms
proof (induction xs)
  case Nil
  then show ?case by simp
next
  case (Cons y ys)
  show ?case
  proof (cases "num_le (key x) (key y)")
    case True
    then have "\<forall>z\<in>set ys. key_le key x z"
      using Cons.prems(1) by (auto simp: key_le_def intro: num_le_trans)
    with True Cons.prems show ?thesis
      by (simp add: is_positive_sub key_le_def)
  next
    case False
    then have "num_le (key y) (key x)"
      using Cons.prems num_le_total by auto
    with False Cons show ?thesis
      by (auto simp: is_positive_sub key_le_def set_sort_insert)
  qed
qed

lemma sorted_js_sort:
  assumes "\<forall>y\<in>set xs. key y \<noteq> NaN"
  shows "sorted_wrt (key_le key) (js_sort (\<lambda>a b. num_sub (key a) (key b)) xs)"
  using assms
proof (induction xs)
  case Nil
  then show ?case by (simp add: js_sort_def)
next
  case (Cons x xs)
  then have "sorted_wrt (key_le key) (js_sort (\<lambda>a b. num_sub (key a) (key b)) xs)"
    by simp
  then have "sorted_wrt (key_le key)
      (sort_insert (\<lambda>a b. num_sub (key a) (key b)) x (js_sort (\<lambda>a b. num_sub (key a) (key b)) xs))"
    using Cons.prems by (intro sorted_sort_insert) (auto simp: set_js_sort)
  then show ?case by (simp add: js_sort_def)
qed

section \<open>The composite splice\<close>

lemma fold_push_selected:
  "fold (push_selected lo hi) dps acc = acc @ filter (in_window lo hi) dps"
  by (induction dps arbitrary: acc) (auto simp: push_selected_def)

lemma in_window_NaN [simp]: "\<not> in_window NaN hi dp" "\<not> in_window lo NaN dp"
  by (auto simp: in_window_def split: option.splits)

lemma spec_selected_window:
  "spec_selected ivs s dp =
     (case ivs (id_sec s) of
        None \<Rightarrow> False
      | Some iv \<Rightarrow> startAge iv \<noteq> Null \<and> endAge iv \<noteq> Null \<and>
          in_window (Math_min (to_number (startAge iv)) (to_number (endAge iv)))
                    (Math_max (to_number (startAge iv)) (to_number (endAge iv))) dp)"
proof (cases "ivs (id_sec s)")
  case None
  then show ?thesis by (simp add: spec_selected_def spec_window_def)
next
  case (Some iv)
  then show ?thesis
    by (cases "startAge iv"; cases "endAge iv")
       (simp_all add: spec_selected_def spec_window_def in_window_def split: option.splits)
qed

lemma splice_section_spec:
  "splice_section ivs s acc = acc @ filter (spec_selected ivs s) (dataPoints s)"
proof -
  have "filter (spec_selected ivs s) (dataPoints s) =
        filter (\<lambda>dp. case ivs (id_sec s) of
            None \<Rightarrow> False
          | Some iv \<Rightarrow> startAge iv \<noteq> Null \<and> endAge iv \<noteq> Null \<and>
              in_window (Math_min (to_number (startAge iv)) (to_number (endAge iv)))
                        (Math_max (to_number (startAge iv)) (to_number (endAge iv))) dp)
          (dataPoints s)"
    by (rule filter_cong) (simp_all add: spec_selected_window)
  then show ?thesis
    by (auto simp: splice_section_def fold_push_selected split: option.splits)
qed

lemma fold_splice_section:
  "fold (splice_section ivs) secs acc = acc @ spec_concat secs ivs"
  by (induction secs arbitrary: acc) (simp_all add: spec_concat_def splice_section_spec)

lemma age_cmp_key: "age_cmp = (\<lambda>a b. num_sub (age_key a) (age_key b))"
  by (simp add: age_cmp_def age_key_def fun_eq_iff)

lemma spec_selected_age: "spec_selected ivs s dp \<Longrightarrow> age dp \<noteq> None \<and> age_key dp \<noteq> NaN"
  by (auto simp: spec_selected_def age_key_def split: option.splits prod.splits)

lemma spec_concat_age:
  "dp \<in> set (spec_concat secs ivs) \<Longrightarrow> age dp \<noteq> None \<and> age_key dp \<noteq> NaN"
  using spec_selected_age by (fastforce simp: spec_concat_def)

lemma compositeSplice_eq:
  "compositeSplice (Some secs) ivs = js_sort age_cmp (spec_concat secs ivs)"
  by (simp add: compositeSplice_def fold_splice_section)

lemma compositeSplice_sorted:
  "sorted_wrt (key_le age_key) (compositeSplice (Some secs) ivs)"
  unfolding compositeSplice_eq age_cmp_key
  by (rule sorted_js_sort) (use spec_concat_age in blast)

text \<open>
  C4. The composite of absent calibrated sections is empty. Otherwise it holds exactly
  the records that the specification selects (age defined and inside the window
  \<open>[min, max]\<close> of a section whose interval has both bounds set), taken section by
  section and then sorted: it is a stable sort of their concatenation, has the same
  records with the same multiplicities, and is ascending by age. Sections without both
  bounds, or without ages, add nothing.
\<close>

theorem compositeSplice_assembles:
  "compositeSplice None ivs = []
   \<and> compositeSplice (Some secs) ivs = js_sort age_cmp (spec_concat secs ivs)
   \<and> mset (compositeSplice (Some secs) ivs) = mset (spec_concat secs ivs)
   \<and> sorted_wrt (key_le age_key) (compositeSplice (Some secs) ivs)"
proof -
  have "compositeSplice None ivs = []"
    by (simp add: compositeSplice_def)
  moreover have "mset (compositeSplice (Some secs) ivs) = mset (spec_concat secs ivs)"
    by (simp add: compositeSplice_eq mset_js_sort)
  ultimately show ?thesis
    using compositeSplice_eq compositeSplice_sorted by blast
qed

lemmas composite_eval =
  compositeSplice_def splice_section_def push_selected_def in_window_def
  Math_min_def Math_max_def js_sort_def age_cmp_def ex_point_def ex_section_def ex_interval_def

theorem compositeSplice_assembles_witness:
  "compositeSplice (Some [ex_section ''A'' [100, 300], ex_section ''B'' [150, 250]])
     [''A'' \<mapsto> ex_interval ''A'' 0 1000, ''B'' \<mapsto> ex_interval ''B'' 1000 0]
   = [ex_point 100, ex_point 150, ex_point 250, ex_point 300]
   \<and> sorted_wrt (key_le age_key) [ex_point 100, ex_point 150, ex_point 250, ex_point 300]"
proof -
  have e: "compositeSplice (Some [ex_section ''A'' [100, 300], ex_section ''B'' [150, 250]])
     [''A'' \<mapsto> ex_interval ''A'' 0 1000, ''B'' \<mapsto> ex_interval ''B'' 1000 0]
   = [ex_point 100, ex_point 150, ex_point 250, ex_point 300]"
    by (simp add: composite_eval)
  have "sorted_wrt (key_le age_key)
     (compositeSplice (Some [ex_section ''A'' [100, 300], ex_section ''B'' [150, 250]])
       [''A'' \<mapsto> ex_interval ''A'' 0 1000, ''B'' \<mapsto> ex_interval ''B'' 1000 0])"
    using compositeSplice_assembles by blast
  then show ?thesis
    unfolding e using e by simp
qed

lemma spec_window_swap:
  "spec_window (Some \<lparr>iv_sectionId = x, startAge = a, endAge = b\<rparr>)
   = spec_window (Some \<lparr>iv_sectionId = x, startAge = b, endAge = a\<rparr>)"
  by (cases a; cases b) (simp_all add: spec_window_def Math_min_commute Math_max_commute)

lemma spec_selected_swap:
  "spec_selected (ivs(sid \<mapsto> \<lparr>iv_sectionId = x, startAge = a, endAge = b\<rparr>)) s dp
   = spec_selected (ivs(sid \<mapsto> \<lparr>iv_sectionId = x, startAge = b, endAge = a\<rparr>)) s dp"
  using spec_window_swap [of x a b] by (simp add: spec_selected_def)

lemma spec_concat_swap:
  "spec_concat secs (ivs(sid \<mapsto> \<lparr>iv_sectionId = x, startAge = a, endAge = b\<rparr>))
   = spec_concat secs (ivs(sid \<mapsto> \<lparr>iv_sectionId = x, startAge = b, endAge = a\<rparr>))"
proof -
  have "spec_selected (ivs(sid \<mapsto> \<lparr>iv_sectionId = x, startAge = a, endAge = b\<rparr>)) s
      = spec_selected (ivs(sid \<mapsto> \<lparr>iv_sectionId = x, startAge = b, endAge = a\<rparr>)) s" for s
    using spec_selected_swap by blast
  then show ?thesis by (simp add: spec_concat_def)
qed

text \<open>
  C7. Exchanging the two bounds of a section's splice interval does not change the
  composite, whatever the bounds and the calibrated sections are.
\<close>

theorem splice_interval_order_independent:
  "compositeSplice cs (ivs(sid \<mapsto> \<lparr>iv_sectionId = x, startAge = a, endAge = b\<rparr>))
   = compositeSplice cs (ivs(sid \<mapsto> \<lparr>iv_sectionId = x, startAge = b, endAge = a\<rparr>))"
proof (cases cs)
  case None
  then show ?thesis by (simp add: compositeSplice_def)
next
  case (Some secs)
  then show ?thesis by (simp add: compositeSplice_eq spec_concat_swap)
qed

theorem splice_interval_order_independent_witness:
  "compositeSplice (Some [ex_section ''A'' [5, 10, 30, 50, 70]])
      (Map.empty(''A'' \<mapsto> \<lparr>iv_sectionId = Some ''A'', startAge = Num (Fin 50), endAge = Num (Fin 10)\<rparr>))
   = compositeSplice (Some [ex_section ''A'' [5, 10, 30, 50, 70]])
      (Map.empty(''A'' \<mapsto> \<lparr>iv_sectionId = Some ''A'', startAge = Num (Fin 10), endAge = Num (Fin 50)\<rparr>))
   \<and> compositeSplice (Some [ex_section ''A'' [5, 10, 30, 50, 70]])
      (Map.empty(''A'' \<mapsto> \<lparr>iv_sectionId = Some ''A'', startAge = Num (Fin 50), endAge = Num (Fin 10)\<rparr>))
   = [ex_point 10, ex_point 30, ex_point 50]"
  using splice_interval_order_independent [of "Some [ex_section ''A'' [5, 10, 30, 50, 70]]"
      Map.empty "''A''" "Some ''A''" "Num (Fin 50)" "Num (Fin 10)"]
  by (simp add: composite_eval)

lemma spec_selected_NaN:
  assumes "ivs (id_sec s) = Some iv" and "startAge iv = Num NaN \<or> endAge iv = Num NaN"
  shows "\<not> spec_selected ivs s dp"
  using assms by (auto simp: spec_selected_window)

lemma spec_concat_NaN:
  assumes "ivs sid = Some iv" and "startAge iv = Num NaN \<or> endAge iv = Num NaN"
  shows "spec_concat secs ivs = spec_concat (filter (\<lambda>s. id_sec s \<noteq> sid) secs) ivs"
proof -
  have "filter (spec_selected ivs s) (dataPoints s) = []" if "id_sec s = sid" for s
    using that assms spec_selected_NaN [of ivs s iv] by (simp add: filter_empty_conv)
  then show ?thesis
    unfolding spec_concat_def by (induction secs) auto
qed

lemma handleSpliceIntervalChange_NaN:
  assumes "val \<noteq> []" and "numeric_prefix val = None"
  shows "\<exists>iv. handleSpliceIntervalChange prev sid StartAge val sid = Some iv \<and> startAge iv = Num NaN"
    and "\<exists>iv. handleSpliceIntervalChange prev sid EndAge val sid = Some iv \<and> endAge iv = Num NaN"
  using assms by (simp_all add: handleSpliceIntervalChange_def parseFloat_def)

text \<open>
  C10. A bound entered as a non-empty string without a numeric prefix is stored as
  \<open>NaN\<close>; nothing is raised. A section whose interval has a \<open>NaN\<close> bound adds no record:
  the composite is the one computed without that section. \<open>compositeSplice\<close> has no
  failing branch, whatever the intervals hold.
\<close>

theorem nan_bound_selects_nothing:
  "(val \<noteq> [] \<and> numeric_prefix val = None \<longrightarrow>
      (\<exists>iv. handleSpliceIntervalChange prev sid StartAge val sid = Some iv \<and> startAge iv = Num NaN)
    \<and> (\<exists>iv. handleSpliceIntervalChange prev sid EndAge val sid = Some iv \<and> endAge iv = Num NaN))
   \<and> (ivs sid = Some iv \<and> (startAge iv = Num NaN \<or> endAge iv = Num NaN) \<longrightarrow>
        compositeSplice (Some secs) ivs
        = compositeSplice (Some (filter (\<lambda>s. id_sec s \<noteq> sid) secs)) ivs)"
  using handleSpliceIntervalChange_NaN [of val prev sid] spec_concat_NaN [of ivs sid iv secs]
  by (simp add: compositeSplice_eq)

lemma numeric_prefix_abc: "numeric_prefix ''abc'' = None"
  by (simp add: numeric_prefix_def parse_unsigned_def is_white_def is_digit_def)

theorem nan_bound_selects_nothing_witness:
  "''abc'' \<noteq> [] \<and> numeric_prefix ''abc'' = None
   \<and> handleSpliceIntervalChange [''A'' \<mapsto> ex_interval ''A'' 0 1000] ''A'' EndAge ''abc'' ''A''
       = Some \<lparr>iv_sectionId = Some ''A'', startAge = Num (Fin 0), endAge = Num NaN\<rparr>
   \<and> compositeSplice (Some [ex_section ''A'' [100, 300], ex_section ''B'' [150, 250]])
       [''A'' \<mapsto> \<lparr>iv_sectionId = Some ''A'', startAge = Num (Fin 0), endAge = Num NaN\<rparr>,
        ''B'' \<mapsto> ex_interval ''B'' 1000 0]
     = [ex_point 150, ex_point 250]"
  using nan_bound_selects_nothing [of "''abc''" "[''A'' \<mapsto> ex_interval ''A'' 0 1000]" "''A''"
      "[''A'' \<mapsto> \<lparr>iv_sectionId = Some ''A'', startAge = Num (Fin 0), endAge = Num NaN\<rparr>,
        ''B'' \<mapsto> ex_interval ''B'' 1000 0]"
      "\<lparr>iv_sectionId = Some ''A'', startAge = Num (Fin 0), endAge = Num NaN\<rparr>"
      "[ex_section ''A'' [100, 300], ex_section ''B'' [150, 250]]"]
    numeric_prefix_abc
  by (simp add: composite_eval handleSpliceIntervalChange_def parseFloat_def)

section \<open>The merge of the delegate's ages\<close>

lemma map_all_Inr:
  "map_all f xs = Inr ys \<Longrightarrow> length ys = length xs \<and> (\<forall>i<length xs. f (xs ! i) = Inr (ys ! i))"
proof (induction xs arbitrary: ys)
  case Nil
  then show ?case by simp
next
  case (Cons x xs)
  then obtain y ys' where y: "f x = Inr y" and ys': "map_all f xs = Inr ys'" and ys: "ys = y # ys'"
    by (auto split: sum.splits)
  from Cons.IH [OF ys'] y ys show ?case
    by (auto simp: nth_Cons split: nat.splits)
qed


lemma merge_section_shape:
  assumes "merge_section cs s = Inr s'"
  shows "\<exists>f. s' = s\<lparr>dataPoints := map (\<lambda>dp. dp\<lparr>age := f dp\<rparr>) (dataPoints s)\<rparr>"
proof -
  have same: "s = s\<lparr>dataPoints := map (\<lambda>dp. dp\<lparr>age := age dp\<rparr>) (dataPoints s)\<rparr>"
    by (simp add: map_idI)
  from assms show ?thesis
    unfolding merge_section_def
    by (auto split: sum.splits option.splits if_splits intro: exI [of _ age] same)
qed

lemma merge_section_forget:
  assumes "merge_section cs s = Inr s'"
  shows "forget_ages s' = forget_ages s"
proof -
  from merge_section_shape [OF assms] obtain f
    where "s' = s\<lparr>dataPoints := map (\<lambda>dp. dp\<lparr>age := f dp\<rparr>) (dataPoints s)\<rparr>" by blast
  then show ?thesis by (simp add: forget_ages_def)
qed

lemma generateAgeModel_Inr:
  assumes "generateAgeModel k reply secs tps = Inr out"
  shows "\<exists>resp cs. k \<and> reply = Json resp \<and> js_get resp ''calibratedSections'' = Inr cs
           \<and> map_all (merge_section cs) secs = Inr out"
  using assms unfolding generateAgeModel_def
  by (auto split: if_splits delegate_reply.splits sum.splits)

lemma generateAgeModel_forget:
  assumes "generateAgeModel k reply secs tps = Inr out"
  shows "map forget_ages out = map forget_ages secs"
proof -
  from generateAgeModel_Inr [OF assms] obtain cs
    where m: "map_all (merge_section cs) secs = Inr out" by blast
  from map_all_Inr [OF m] have len: "length out = length secs"
    and each: "\<forall>i<length secs. merge_section cs (secs ! i) = Inr (out ! i)" by auto
  show ?thesis
  proof (rule nth_equalityI)
    show "length (map forget_ages out) = length (map forget_ages secs)" using len by simp
  next
    fix i assume "i < length (map forget_ages out)"
    then have i: "i < length secs" using len by simp
    with each have "merge_section cs (secs ! i) = Inr (out ! i)" by blast
    from merge_section_forget [OF this] i len
    show "map forget_ages out ! i = map forget_ages secs ! i" by simp
  qed
qed

lemma forget_ages_fields:
  assumes "forget_ages s' = forget_ages s"
  shows "id_sec s' = id_sec s" "name s' = name s" "labAnalysis s' = labAnalysis s"
    "metadata s' = metadata s" "length (dataPoints s') = length (dataPoints s)"
    "\<forall>j<length (dataPoints s). depth (dataPoints s' ! j) = depth (dataPoints s ! j)
        \<and> proxies (dataPoints s' ! j) = proxies (dataPoints s ! j)"
proof -
  show "id_sec s' = id_sec s"
    using arg_cong [OF assms, of id_sec] by (simp add: forget_ages_def)
  show "name s' = name s"
    using arg_cong [OF assms, of name] by (simp add: forget_ages_def)
  show "labAnalysis s' = labAnalysis s"
    using arg_cong [OF assms, of labAnalysis] by (simp add: forget_ages_def)
  show "metadata s' = metadata s"
    using arg_cong [OF assms, of metadata] by (simp add: forget_ages_def)
  have m: "map (\<lambda>dp. dp\<lparr>age := None\<rparr>) (dataPoints s') = map (\<lambda>dp. dp\<lparr>age := None\<rparr>) (dataPoints s)"
    using arg_cong [OF assms, of dataPoints] by (simp add: forget_ages_def)
  then show len: "length (dataPoints s') = length (dataPoints s)"
    by (rule map_eq_imp_length_eq)
  show "\<forall>j<length (dataPoints s). depth (dataPoints s' ! j) = depth (dataPoints s ! j)
        \<and> proxies (dataPoints s' ! j) = proxies (dataPoints s ! j)"
  proof (intro allI impI)
    fix j assume j: "j < length (dataPoints s)"
    have "map (\<lambda>dp. dp\<lparr>age := None\<rparr>) (dataPoints s') ! j = map (\<lambda>dp. dp\<lparr>age := None\<rparr>) (dataPoints s) ! j"
      using m by simp
    then have e: "(dataPoints s' ! j)\<lparr>age := None\<rparr> = (dataPoints s ! j)\<lparr>age := None\<rparr>"
      using j len by simp
    show "depth (dataPoints s' ! j) = depth (dataPoints s ! j)
        \<and> proxies (dataPoints s' ! j) = proxies (dataPoints s ! j)"
      using arg_cong [OF e, of depth] arg_cong [OF e, of proxies] by simp
  qed
qed

lemma as_array_Inr: "as_array v = Inr xs \<Longrightarrow> v = Some (JArr xs)"
  by (cases v rule: as_array.cases) simp_all

lemma find_section_find:
  "find_section sid css = Inr r \<Longrightarrow> r = List.find (\<lambda>cs. member cs ''id'' = Some (JStr sid)) css"
  by (induction css) (auto simp: member_def split: sum.splits if_splits)

lemma find_Some_truthy:
  assumes "member cd ''id'' = Some (JStr sid)"
  shows "truthy cd"
  using assms by (cases cd) (simp_all add: member_def)

lemma age_entries_map:
  "age_entries arr = Inr es \<Longrightarrow> es = map (\<lambda>p. (member p ''depth'', member p ''age'')) arr"
  by (induction arr arbitrary: es) (auto simp: member_def split: sum.splits)

lemma fold_last_match:
  "fold (\<lambda>e found. if P e then snd e else found) es acc
   = (case filter P es of [] \<Rightarrow> acc | m # ms \<Rightarrow> snd (last (m # ms)))"
  by (induction es arbitrary: acc) (auto split: list.splits)

lemma ageMap_get_last:
  "ageMap_get es k
   = (case filter (\<lambda>e. same_value_zero k (fst e)) es of [] \<Rightarrow> None | m # ms \<Rightarrow> snd (last (m # ms)))"
  unfolding ageMap_get_def by (rule fold_last_match)

lemma ageMap_get_entries:
  "ageMap_get (map (\<lambda>p. (member p ''depth'', member p ''age'')) arr) (depth dp) = last_match_age dp arr"
proof -
  let ?f = "\<lambda>p. (member p ''depth'', member p ''age'')"
  have f: "filter (\<lambda>e. same_value_zero (depth dp) (fst e)) (map ?f arr) = map ?f (filter (same_depth dp) arr)"
    by (simp add: filter_map comp_def same_depth_def [abs_def])
  show ?thesis
    unfolding ageMap_get_last f last_match_age_def
    by (cases "filter (same_depth dp) arr") (simp_all add: last_map)
qed

lemma find_SomeD: "List.find P xs = Some x \<Longrightarrow> P x"
  by (induction xs) (auto split: if_splits)

lemma merge_section_found:
  assumes "as_array cs = Inr css" and "find_section (id_sec s) css = Inr (Some cd)" and "truthy cd"
  shows "merge_section cs s =
     (case js_get cd ''dataPoints'' of
        Inl e \<Rightarrow> Inl e
      | Inr dps \<Rightarrow>
          (case as_array dps of
             Inl e \<Rightarrow> Inl e
           | Inr arr \<Rightarrow>
               (case age_entries arr of
                  Inl e \<Rightarrow> Inl e
                | Inr entries \<Rightarrow>
                    Inr (s\<lparr>dataPoints :=
                      map (\<lambda>dp. dp\<lparr>age := calculated_age (ageMap_get entries (depth dp))\<rparr>)
                          (dataPoints s)\<rparr>))))"
  using assms by (simp add: merge_section_def)

lemma merge_section_listed:
  assumes m: "merge_section cs s = Inr s'" and r: "js_get resp ''calibratedSections'' = Inr cs"
  shows "case listed_entry resp (id_sec s) of
           None \<Rightarrow> s' = s
         | Some entry \<Rightarrow>
             s' = s\<lparr>dataPoints :=
                    map (\<lambda>dp. dp\<lparr>age := calculated_age (last_match_age dp (entry_points entry))\<rparr>)
                        (dataPoints s)\<rparr>"
proof -
  obtain css where css: "as_array cs = Inr css"
    using m by (cases "as_array cs") (simp_all add: merge_section_def)
  then have cs: "cs = Some (JArr css)" by (rule as_array_Inr)
  obtain found where found: "find_section (id_sec s) css = Inr found"
    using m css by (cases "find_section (id_sec s) css") (simp_all add: merge_section_def)
  then have fnd: "found = List.find (\<lambda>c. member c ''id'' = Some (JStr (id_sec s))) css"
    by (rule find_section_find)
  have le: "listed_entry resp (id_sec s) = found"
    using r cs fnd by (simp add: listed_entry_def member_def)
  show ?thesis
  proof (cases found)
    case None
    with m css found le show ?thesis
      by (simp add: merge_section_def)
  next
    case (Some cd)
    then have "List.find (\<lambda>c. member c ''id'' = Some (JStr (id_sec s))) css = Some cd"
      using fnd by simp
    then have "member cd ''id'' = Some (JStr (id_sec s))"
      by (rule find_SomeD)
    then have t: "truthy cd" by (rule find_Some_truthy)
    note eq = merge_section_found [OF css found [unfolded Some] t]
    obtain dps where dps: "js_get cd ''dataPoints'' = Inr dps"
      using m eq by (cases "js_get cd ''dataPoints''") simp_all
    obtain arr where arr: "as_array dps = Inr arr"
      using m eq dps by (cases "as_array dps") simp_all
    obtain es where es: "age_entries arr = Inr es"
      using m eq dps arr by (cases "age_entries arr") simp_all
    have s': "s' = s\<lparr>dataPoints :=
                  map (\<lambda>dp. dp\<lparr>age := calculated_age (ageMap_get es (depth dp))\<rparr>) (dataPoints s)\<rparr>"
      using m eq dps arr es by simp
    have ep: "entry_points cd = arr"
      using dps as_array_Inr [OF arr] by (simp add: entry_points_def member_def)
    from s' age_entries_map [OF es] ep le Some show ?thesis
      by (simp add: ageMap_get_entries)
  qed
qed

lemma calculated_age_defined:
  "(calculated_age v \<noteq> None) = (case v of Some (JNum r) \<Rightarrow> True | _ \<Rightarrow> False)"
  by (cases v rule: calculated_age.cases) simp_all

lemma last_match_numeric:
  "(calculated_age (last_match_age dp ps) \<noteq> None)
   = (case filter (same_depth dp) ps of [] \<Rightarrow> False | m # ms \<Rightarrow> numeric_age (last (m # ms)))"
proof (cases "filter (same_depth dp) ps")
  case Nil
  then show ?thesis by (simp add: last_match_age_def)
next
  case (Cons m ms)
  then show ?thesis
    unfolding last_match_age_def numeric_age_def calculated_age_defined by simp
qed

lemma json_number_examples:
  "json_number 1 = Fin 1" "json_number 5 = Fin 5" "json_number 15 = Fin 15"
  "json_number 30 = Fin 30" "json_number 50 = Fin 50" "json_number 150 = Fin 150"
  "json_number 151 = Fin 151" "json_number 300 = Fin 300"
  by code_simp+

lemma toFixed4_examples:
  "toFixed4 (Fin 5) = Fin 5" "toFixed4 (Fin 50) = Fin 50" "toFixed4 (Fin 150) = Fin 150"
  "toFixed4 (Fin 151) = Fin 151" "toFixed4 (Fin 300) = Fin 300"
  by code_simp+

lemmas merge_eval =
  generateAgeModel_def merge_section_def ageMap_get_def
  ex_s1_def ex_s2_def ex_ties_def ex_entry_def ex_resp_def ex_dup_entry_def ex_dup_resp_def
  ex_noid_resp_def ex_s1_merged_def ex_s1_erased_def

lemma ex_resp_result:
  "generateAgeModel True (Json ex_resp) [ex_s1, ex_s2] ex_ties = Inr [ex_s1_merged, ex_s2]"
  by (simp add: merge_eval json_number_examples toFixed4_examples)

lemma ex_dup_result:
  "generateAgeModel True (Json ex_dup_resp) [ex_s1, ex_s2] ex_ties = Inr [ex_s1_erased, ex_s2]"
  by (simp add: merge_eval json_number_examples toFixed4_examples)

lemma ex_noid_result:
  "generateAgeModel True (Json ex_noid_resp) [ex_s1, ex_s2] ex_ties = Inr [ex_s1, ex_s2]"
  by (simp add: merge_eval)

text \<open>
  C5. A successful calibration changes nothing but ages: with the ages forgotten the
  output is the input. So the sections come back in the same number and order, each
  with its identifier, name and other fields, and each record with its depth and its
  proxies; nothing but \<open>age\<close> comes from the delegate's reply.
\<close>

theorem calibration_preserves_fields:
  assumes "generateAgeModel k reply secs tps = Inr out"
  shows "map forget_ages out = map forget_ages secs
    \<and> length out = length secs
    \<and> (\<forall>i<length secs.
          id_sec (out ! i) = id_sec (secs ! i) \<and> name (out ! i) = name (secs ! i)
        \<and> labAnalysis (out ! i) = labAnalysis (secs ! i)
        \<and> metadata (out ! i) = metadata (secs ! i)
        \<and> length (dataPoints (out ! i)) = length (dataPoints (secs ! i))
        \<and> (\<forall>j<length (dataPoints (secs ! i)).
              depth (dataPoints (out ! i) ! j) = depth (dataPoints (secs ! i) ! j)
            \<and> proxies (dataPoints (out ! i) ! j) = proxies (dataPoints (secs ! i) ! j)))"
proof -
  have f: "map forget_ages out = map forget_ages secs"
    using assms by (rule generateAgeModel_forget)
  then have len: "length out = length secs"
    using map_eq_imp_length_eq by blast
  have "forget_ages (out ! i) = forget_ages (secs ! i)" if "i < length secs" for i
    using arg_cong [OF f, of "\<lambda>xs. xs ! i"] len that by simp
  with f len show ?thesis
    using forget_ages_fields by blast
qed

theorem calibration_preserves_fields_witness:
  "generateAgeModel True (Json ex_resp) [ex_s1, ex_s2] ex_ties = Inr [ex_s1_merged, ex_s2]
   \<and> map forget_ages [ex_s1_merged, ex_s2] = map forget_ages [ex_s1, ex_s2]
   \<and> ex_s1_merged \<noteq> ex_s1"
  using calibration_preserves_fields [OF ex_resp_result] ex_resp_result
  by (simp add: ex_s1_merged_def ex_s1_def)

text \<open>
  C9 (as the code has it). After a successful calibration, a section without an entry
  of its id in the response is returned unchanged, prior ages included. For a section
  with such an entry the first one counts, and a record's age is defined exactly when,
  among the entry's data points with the record's depth, the last one has a numeric
  age; otherwise the age is unset, whatever it was before.
\<close>

theorem merged_age_follows_last_match:
  assumes "generateAgeModel k (Json resp) secs tps = Inr out" and "i < length secs"
  shows "case listed_entry resp (id_sec (secs ! i)) of
           None \<Rightarrow> out ! i = secs ! i
         | Some entry \<Rightarrow>
             length (dataPoints (out ! i)) = length (dataPoints (secs ! i))
           \<and> (\<forall>j<length (dataPoints (secs ! i)).
                  (age (dataPoints (out ! i) ! j) \<noteq> None)
                = (case filter (same_depth (dataPoints (secs ! i) ! j)) (entry_points entry) of
                     [] \<Rightarrow> False
                   | m # ms \<Rightarrow> numeric_age (last (m # ms))))"
proof -
  from generateAgeModel_Inr [OF assms(1)] obtain cs
    where r: "js_get resp ''calibratedSections'' = Inr cs"
      and m: "map_all (merge_section cs) secs = Inr out" by auto
  from map_all_Inr [OF m] assms(2) have "merge_section cs (secs ! i) = Inr (out ! i)"
    by blast
  note ch = merge_section_listed [OF this r]
  show ?thesis
  proof (cases "listed_entry resp (id_sec (secs ! i))")
    case None
    with ch show ?thesis by simp
  next
    case (Some entry)
    with ch have o: "out ! i = (secs ! i)\<lparr>dataPoints :=
        map (\<lambda>dp. dp\<lparr>age := calculated_age (last_match_age dp (entry_points entry))\<rparr>)
            (dataPoints (secs ! i))\<rparr>"
      by simp
    show ?thesis
      unfolding Some o by (simp add: last_match_numeric [unfolded not_None_eq])
  qed
qed

theorem merged_age_follows_last_match_witness:
  "generateAgeModel True (Json ex_dup_resp) [ex_s1, ex_s2] ex_ties = Inr [ex_s1_erased, ex_s2]
   \<and> (0::nat) < length [ex_s1, ex_s2] \<and> (1::nat) < length [ex_s1, ex_s2]
   \<and> listed_entry ex_dup_resp (id_sec ([ex_s1, ex_s2] ! 0)) = Some ex_dup_entry
   \<and> listed_entry ex_dup_resp (id_sec ([ex_s1, ex_s2] ! 1)) = None
   \<and> age (dataPoints ex_s1_erased ! 1) = None
   \<and> [ex_s1_erased, ex_s2] ! 1 = [ex_s1, ex_s2] ! 1"
  using merged_age_follows_last_match [OF ex_dup_result, of 0]
    merged_age_follows_last_match [OF ex_dup_result, of 1] ex_dup_result
  by (simp add: listed_entry_def member_def ex_dup_resp_def ex_dup_entry_def ex_s1_def ex_s2_def
      ex_s1_erased_def)

theorem response_point_not_enough_counterexample:
  "generateAgeModel True (Json ex_dup_resp) [ex_s1, ex_s2] ex_ties = Inr [ex_s1_erased, ex_s2]
   \<and> depth (dataPoints ex_s1 ! 1) = Some (Fin 15)
   \<and> age (dataPoints ex_s1_erased ! 1) = None
   \<and> listed_entry ex_dup_resp ''S1'' = Some ex_dup_entry
   \<and> entry_points ex_dup_entry ! 0 = JObj [(''depth'', JNum 15), (''age'', JNum 150)]"
  using ex_dup_result
  by (simp add: listed_entry_def entry_points_def member_def ex_dup_resp_def ex_dup_entry_def
      ex_s1_def ex_s1_erased_def)

text \<open>
  C6 (as the code has it). When the delegate cannot be reached or its text does not
  parse, and when the parsed response gives no \<open>calibratedSections\<close> array although
  there are sections, the invocation fails as a whole and the caller keeps the calibrated
  sections it had. An invocation that succeeds returns every input section, in order.
\<close>

theorem calibration_fails_whole:
  "(reply = CallFailed \<or> reply = NotJson \<longrightarrow>
       (\<exists>e. generateAgeModel k reply secs tps = Inl e))
   \<and> (secs \<noteq> [] \<and> (\<forall>css. js_get resp ''calibratedSections'' \<noteq> Inr (Some (JArr css))) \<longrightarrow>
       (\<exists>e. generateAgeModel k (Json resp) secs tps = Inl e))
   \<and> ((\<exists>e. generateAgeModel k reply secs tps = Inl e) \<longrightarrow>
       handleGenerateAgeModel k reply secs tps prev = prev)
   \<and> (generateAgeModel k reply secs tps = Inr out \<longrightarrow> map id_sec out = map id_sec secs)"
proof (intro conjI impI)
  assume "reply = CallFailed \<or> reply = NotJson"
  then show "\<exists>e. generateAgeModel k reply secs tps = Inl e"
    by (auto simp: generateAgeModel_def)
next
  assume a: "secs \<noteq> [] \<and> (\<forall>css. js_get resp ''calibratedSections'' \<noteq> Inr (Some (JArr css)))"
  then obtain s rest where secs: "secs = s # rest" by (cases secs) auto
  show "\<exists>e. generateAgeModel k (Json resp) secs tps = Inl e"
  proof (cases "js_get resp ''calibratedSections''")
    case (Inl e)
    then show ?thesis by (simp add: generateAgeModel_def)
  next
    case (Inr cs)
    with a have "\<forall>css. cs \<noteq> Some (JArr css)" by simp
    then have "as_array cs = Inl TypeError"
      by (cases cs rule: as_array.cases) simp_all
    then have "merge_section cs s = Inl TypeError"
      by (simp add: merge_section_def)
    with Inr secs show ?thesis by (simp add: generateAgeModel_def)
  qed
next
  assume "\<exists>e. generateAgeModel k reply secs tps = Inl e"
  then show "handleGenerateAgeModel k reply secs tps prev = prev"
    by (auto simp: handleGenerateAgeModel_def)
next
  assume "generateAgeModel k reply secs tps = Inr out"
  then have "map forget_ages out = map forget_ages secs"
    by (rule generateAgeModel_forget)
  then have "map id_sec (map forget_ages out) = map id_sec (map forget_ages secs)"
    by simp
  then have "map (id_sec \<circ> forget_ages) out = map (id_sec \<circ> forget_ages) secs"
    by simp
  moreover have "id_sec \<circ> forget_ages = id_sec"
    by (simp add: fun_eq_iff forget_ages_def)
  ultimately show "map id_sec out = map id_sec secs" by simp
qed

theorem calibration_fails_whole_witness:
  "(\<exists>e. generateAgeModel True NotJson [ex_s1, ex_s2] ex_ties = Inl e)
   \<and> [ex_s1, ex_s2] \<noteq> []
   \<and> (\<forall>css. js_get (JObj []) ''calibratedSections'' \<noteq> Inr (Some (JArr css)))
   \<and> (\<exists>e. generateAgeModel True (Json (JObj [])) [ex_s1, ex_s2] ex_ties = Inl e)
   \<and> handleGenerateAgeModel True NotJson [ex_s1, ex_s2] ex_ties (Some [ex_s1_merged]) = Some [ex_s1_merged]
   \<and> generateAgeModel True (Json ex_resp) [ex_s1, ex_s2] ex_ties = Inr [ex_s1_merged, ex_s2]
   \<and> map id_sec [ex_s1_merged, ex_s2] = map id_sec [ex_s1, ex_s2]"
  using calibration_fails_whole [of NotJson True "[ex_s1, ex_s2]" ex_ties "JObj []" "Some [ex_s1_merged]" "[]"]
    calibration_fails_whole [of "Json ex_resp" True "[ex_s1, ex_s2]" ex_ties "JObj []" None "[ex_s1_merged, ex_s2]"]
    ex_resp_result
  by simp

theorem shape_deviation_succeeds_counterexample:
  "generateAgeModel True (Json ex_noid_resp) [ex_s1, ex_s2] ex_ties = Inr [ex_s1, ex_s2]
   \<and> generateAgeModel True (Json ex_resp) [ex_s1, ex_s2] ex_ties = Inr [ex_s1_merged, ex_s2]
   \<and> entry_points ex_entry ! 1 = JObj [(''depth'', JNum 5), (''age'', JStr ''abc'')]"
  using ex_noid_result ex_resp_result
  by (simp add: entry_points_def member_def ex_entry_def)


lemma generateAgeModel_nth_listed:
  assumes "generateAgeModel k (Json resp) secs tps = Inr out" and "i < length secs"
  shows "out ! i =
     (case listed_entry resp (id_sec (secs ! i)) of
        None \<Rightarrow> secs ! i
      | Some entry \<Rightarrow>
          (secs ! i)\<lparr>dataPoints :=
             map (\<lambda>dp. dp\<lparr>age := calculated_age (last_match_age dp (entry_points entry))\<rparr>)
                 (dataPoints (secs ! i))\<rparr>)"
proof -
  from generateAgeModel_Inr [OF assms(1)] obtain cs
    where r: "js_get resp ''calibratedSections'' = Inr cs"
      and m: "map_all (merge_section cs) secs = Inr out" by auto
  from map_all_Inr [OF m] assms(2) have "merge_section cs (secs ! i) = Inr (out ! i)"
    by blast
  from merge_section_listed [OF this r] show ?thesis
    by (cases "listed_entry resp (id_sec (secs ! i))") simp_all
qed

lemma generateAgeModel_length:
  assumes "generateAgeModel k reply secs tps = Inr out"
  shows "length out = length secs"
  using generateAgeModel_forget [OF assms] map_eq_imp_length_eq by blast

lemma ex_extra_result:
  "generateAgeModel True (Json ex_extra_resp) [ex_s1, ex_s2] ex_ties = Inr [ex_s1_merged, ex_s2]"
  by (simp add: merge_eval ex_extra_resp_def json_number_examples toFixed4_examples)

text \<open>
  C3 (as the code has it). Calibration is not a function of the sections and the
  tie-points: its ages are those of the delegate's reply. Two successful calibrations
  of the same sections, whatever their tie-points and replies, return the same sections
  and records but for the ages; and they return the same output when the two responses
  have the same first entry for the identifier of every section.
\<close>

theorem calibrations_differ_in_ages_only:
  "(generateAgeModel k1 reply1 secs tps1 = Inr out1
      \<and> generateAgeModel k2 reply2 secs tps2 = Inr out2 \<longrightarrow>
      map forget_ages out1 = map forget_ages out2)
   \<and> (generateAgeModel k1 (Json resp1) secs tps1 = Inr out1
      \<and> generateAgeModel k2 (Json resp2) secs tps2 = Inr out2
      \<and> list_all (\<lambda>s. listed_entry resp1 (id_sec s) = listed_entry resp2 (id_sec s)) secs \<longrightarrow>
      out1 = out2)"
proof (intro conjI impI)
  assume "generateAgeModel k1 reply1 secs tps1 = Inr out1
      \<and> generateAgeModel k2 reply2 secs tps2 = Inr out2"
  then show "map forget_ages out1 = map forget_ages out2"
    using generateAgeModel_forget [of k1 reply1 secs tps1 out1]
      generateAgeModel_forget [of k2 reply2 secs tps2 out2] by simp
next
  assume a: "generateAgeModel k1 (Json resp1) secs tps1 = Inr out1
      \<and> generateAgeModel k2 (Json resp2) secs tps2 = Inr out2
      \<and> list_all (\<lambda>s. listed_entry resp1 (id_sec s) = listed_entry resp2 (id_sec s)) secs"
  then have g1: "generateAgeModel k1 (Json resp1) secs tps1 = Inr out1"
    and g2: "generateAgeModel k2 (Json resp2) secs tps2 = Inr out2"
    and same: "\<And>s. s \<in> set secs \<Longrightarrow> listed_entry resp1 (id_sec s) = listed_entry resp2 (id_sec s)"
    by (simp_all add: list_all_iff)
  show "out1 = out2"
  proof (rule nth_equalityI)
    show "length out1 = length out2"
      using generateAgeModel_length [OF g1] generateAgeModel_length [OF g2] by simp
  next
    fix i assume "i < length out1"
    then have i: "i < length secs"
      using generateAgeModel_length [OF g1] by simp
    then have "listed_entry resp1 (id_sec (secs ! i)) = listed_entry resp2 (id_sec (secs ! i))"
      by (intro same) simp
    then show "out1 ! i = out2 ! i"
      using generateAgeModel_nth_listed [OF g1 i] generateAgeModel_nth_listed [OF g2 i] by simp
  qed
qed

theorem calibrations_differ_in_ages_only_witness:
  "generateAgeModel True (Json ex_resp) [ex_s1, ex_s2] ex_ties = Inr [ex_s1_merged, ex_s2]
   \<and> generateAgeModel True (Json ex_dup_resp) [ex_s1, ex_s2] [] = Inr [ex_s1_erased, ex_s2]
   \<and> map forget_ages [ex_s1_merged, ex_s2] = map forget_ages [ex_s1_erased, ex_s2]
   \<and> ex_s1_merged \<noteq> ex_s1_erased
   \<and> generateAgeModel True (Json ex_extra_resp) [ex_s1, ex_s2] ex_ties = Inr [ex_s1_merged, ex_s2]
   \<and> list_all (\<lambda>s. listed_entry ex_resp (id_sec s) = listed_entry ex_extra_resp (id_sec s))
        [ex_s1, ex_s2]
   \<and> ex_resp \<noteq> ex_extra_resp"
proof -
  have d: "generateAgeModel True (Json ex_dup_resp) [ex_s1, ex_s2] [] = Inr [ex_s1_erased, ex_s2]"
    using ex_dup_result by (simp add: generateAgeModel_def)
  have l: "list_all (\<lambda>s. listed_entry ex_resp (id_sec s) = listed_entry ex_extra_resp (id_sec s))
        [ex_s1, ex_s2]"
    by (simp add: listed_entry_def member_def ex_resp_def ex_extra_resp_def ex_entry_def
        ex_dup_entry_def ex_s1_def ex_s2_def)
  have f: "map forget_ages [ex_s1_merged, ex_s2] = map forget_ages [ex_s1_erased, ex_s2]"
    using calibrations_differ_in_ages_only
      [of True "Json ex_resp" "[ex_s1, ex_s2]" ex_ties "[ex_s1_merged, ex_s2]" True "Json ex_dup_resp"
          "[]" "[ex_s1_erased, ex_s2]"]
      ex_resp_result d by blast
  have "[ex_s1_merged, ex_s2] = [ex_s1_merged, ex_s2]"
    using calibrations_differ_in_ages_only
      [of True "Json ex_resp" "[ex_s1, ex_s2]" ex_ties "[ex_s1_merged, ex_s2]" True "Json ex_extra_resp"
          ex_ties "[ex_s1_merged, ex_s2]" ex_resp ex_extra_resp]
      ex_resp_result ex_extra_result l by blast
  moreover have "ex_s1_merged \<noteq> ex_s1_erased"
    by (simp add: ex_s1_merged_def ex_s1_erased_def ex_s1_def)
  moreover have "ex_resp \<noteq> ex_extra_resp"
    by (simp add: ex_resp_def ex_extra_resp_def)
  ultimately show ?thesis
    using ex_resp_result d f ex_extra_result l by blast
qed

theorem same_inputs_different_outputs_counterexample:
  "generateAgeModel True (Json ex_resp) [ex_s1, ex_s2] ex_ties
   \<noteq> generateAgeModel True (Json ex_dup_resp) [ex_s1, ex_s2] ex_ties"
  using ex_resp_result ex_dup_result
  by (simp add: ex_s1_merged_def ex_s1_erased_def ex_s1_def)


section \<open>The interpolation rule\<close>







lemma interpolate_few: "length ts < 2 \<Longrightarrow> interpolate ts d = None"
  by (simp add: interpolate_def)

lemma rule_age_few: "length ts < 2 \<Longrightarrow> rule_age ts k = None"
  by (cases "(ts, k)" rule: rule_age.cases) (simp_all add: interpolate_few)

section \<open>Calibration with a delegate that follows the rule\<close>













lemma ex_ties_S2: "section_ties ex_ties ''S2'' = []"
  by (simp add: section_ties_def ex_ties_def)





lemma ex_invent_result:
  "generateAgeModel True (Json ex_invent_resp) [ex_s1, ex_s2] ex_ties = Inr [ex_s1, ex_s2_invented]"
  by (simp add: generateAgeModel_def merge_section_def ageMap_get_def ex_s1_def ex_s2_def
      ex_invent_resp_def ex_invent_entry_def ex_s2_invented_def json_number_examples toFixed4_examples)

lemma ex_null_result:
  "generateAgeModel True (Json ex_null_resp) [ex_s1, ex_s2] ex_ties = Inr [ex_s1, ex_s2_erased]"
  by (simp add: generateAgeModel_def merge_section_def ageMap_get_def ex_s1_def ex_s2_def
      ex_null_resp_def ex_null_entry_def ex_s2_erased_def json_number_examples)





lemma last_match_in_points:
  assumes "last_match_age dp ps = Some v"
  shows "\<exists>p\<in>set ps. member p ''age'' = Some v"
proof (cases "filter (same_depth dp) ps")
  case Nil
  with assms show ?thesis by (simp add: last_match_age_def)
next
  case (Cons m ms)
  then have "last (m # ms) \<in> set (filter (same_depth dp) ps)"
    using last_in_set [of "m # ms"] by simp
  then have "last (m # ms) \<in> set ps" by simp
  moreover have "member (last (m # ms)) ''age'' = Some v"
    using assms Cons by (simp add: last_match_age_def)
  ultimately show ?thesis by blast
qed

lemma no_numeric_age_erases:
  assumes "\<forall>p\<in>set ps. \<not> numeric_age p"
  shows "calculated_age (last_match_age dp ps) = None"
proof (cases "last_match_age dp ps")
  case None
  then show ?thesis by simp
next
  case (Some v)
  from last_match_in_points [OF Some] assms have "\<not> (\<exists>r. v = JNum r)"
    by (auto simp: numeric_age_def)
  with Some show ?thesis by (cases v) simp_all
qed

lemma rule_entry_few:
  assumes "length (section_ties tps (id_sec s)) < 2"
  shows "\<forall>p\<in>set (entry_points (rule_entry tps s)). \<not> numeric_age p"
proof -
  have "\<not> numeric_age (JObj (rule_members (section_ties tps (id_sec s)) k))" for k
    using assms
    by (cases "(section_ties tps (id_sec s), k)" rule: rule_members.cases)
       (simp_all add: numeric_age_def member_def interpolate_few)
  then show ?thesis
    by (auto simp: entry_points_def member_def rule_entry_def)
qed

text \<open>
  C2 (as the code has it). Every record of a section ends without age, whatever age it
  had, when the response lists the section and gives none of its data points a numeric
  age (no age, \<open>null\<close>, or a value that is not a number); a delegate that follows the
  rule answers so for a section with fewer than two tie-points. The merge does not check
  the response against the tie-points: whenever the last data point with a record's
  depth has a numeric age, the record gets that age, rounded. The caller asks for no
  calibration at all while there are fewer than two tie-points in total.
\<close>

theorem unanchored_sections_follow_reply:
  "(generateAgeModel k (Json resp) secs tps = Inr out \<and> i < length secs
      \<and> listed_entry resp (id_sec (secs ! i)) = Some entry \<longrightarrow>
        ((\<forall>p\<in>set (entry_points entry). \<not> numeric_age p) \<longrightarrow>
           (\<forall>dp\<in>set (dataPoints (out ! i)). age dp = None))
      \<and> (\<forall>j a. j < length (dataPoints (secs ! i))
             \<and> last_match_age (dataPoints (secs ! i) ! j) (entry_points entry) = Some (JNum a) \<longrightarrow>
             age (dataPoints (out ! i) ! j) = Some (toFixed4 (json_number a))))
   \<and> (length (section_ties tps (id_sec s)) < 2 \<longrightarrow>
        (\<forall>p\<in>set (entry_points (rule_entry tps s)). \<not> numeric_age p))
   \<and> (length tps < 2 \<longrightarrow> handleGenerateAgeModel k reply secs tps prev = prev)"
proof (intro conjI impI allI)
  assume a: "generateAgeModel k (Json resp) secs tps = Inr out \<and> i < length secs
      \<and> listed_entry resp (id_sec (secs ! i)) = Some entry"
  then have o: "out ! i = (secs ! i)\<lparr>dataPoints :=
       map (\<lambda>dp. dp\<lparr>age := calculated_age (last_match_age dp (entry_points entry))\<rparr>)
           (dataPoints (secs ! i))\<rparr>"
    using generateAgeModel_nth_listed [of k resp secs tps out i] by simp
  {
    assume "\<forall>p\<in>set (entry_points entry). \<not> numeric_age p"
    then show "\<forall>dp\<in>set (dataPoints (out ! i)). age dp = None"
      unfolding o by (auto simp: no_numeric_age_erases)
  }
  {
    fix j a
    assume "j < length (dataPoints (secs ! i))
      \<and> last_match_age (dataPoints (secs ! i) ! j) (entry_points entry) = Some (JNum a)"
    then show "age (dataPoints (out ! i) ! j) = Some (toFixed4 (json_number a))"
      unfolding o by simp
  }
next
  assume "length (section_ties tps (id_sec s)) < 2"
  then show "\<forall>p\<in>set (entry_points (rule_entry tps s)). \<not> numeric_age p"
    by (rule rule_entry_few)
next
  assume "length tps < 2"
  then show "handleGenerateAgeModel k reply secs tps prev = prev"
    by (simp add: handleGenerateAgeModel_def)
qed

theorem unanchored_sections_follow_reply_witness:
  "generateAgeModel True (Json ex_null_resp) [ex_s1, ex_s2] ex_ties = Inr [ex_s1, ex_s2_erased]
   \<and> (1::nat) < length [ex_s1, ex_s2]
   \<and> listed_entry ex_null_resp (id_sec ([ex_s1, ex_s2] ! 1)) = Some ex_null_entry
   \<and> map numeric_age (entry_points ex_null_entry) = [False]
   \<and> map age (dataPoints ex_s2) = [Some (Fin 42)]
   \<and> map age (dataPoints ([ex_s1, ex_s2_erased] ! 1)) = [None]
   \<and> generateAgeModel True (Json ex_invent_resp) [ex_s1, ex_s2] ex_ties = Inr [ex_s1, ex_s2_invented]
   \<and> listed_entry ex_invent_resp (id_sec ([ex_s1, ex_s2] ! 1)) = Some ex_invent_entry
   \<and> last_match_age (dataPoints ([ex_s1, ex_s2] ! 1) ! 0) (entry_points ex_invent_entry)
       = Some (JNum 5)
   \<and> age (dataPoints ([ex_s1, ex_s2_invented] ! 1) ! 0) = Some (Fin 5)
   \<and> length (section_ties ex_ties (id_sec ex_s2)) < 2
   \<and> map numeric_age (entry_points (rule_entry ex_ties ex_s2)) = [False]
   \<and> length (tl ex_ties) < 2
   \<and> handleGenerateAgeModel True (Json ex_resp) [ex_s1, ex_s2] (tl ex_ties) None = None"
proof -
  have i: "(1::nat) < length [ex_s1, ex_s2]" by simp
  have le: "listed_entry ex_null_resp (id_sec ([ex_s1, ex_s2] ! 1)) = Some ex_null_entry"
    "listed_entry ex_invent_resp (id_sec ([ex_s1, ex_s2] ! 1)) = Some ex_invent_entry"
    by (simp_all add: listed_entry_def member_def ex_null_resp_def ex_null_entry_def
        ex_invent_resp_def ex_invent_entry_def ex_s2_def)
  have na: "map numeric_age (entry_points ex_null_entry) = [False]"
    by (simp add: entry_points_def numeric_age_def member_def ex_null_entry_def)
  then have na': "\<forall>p\<in>set (entry_points ex_null_entry). \<not> numeric_age p"
    by (simp add: entry_points_def numeric_age_def member_def ex_null_entry_def)
  have lm: "last_match_age (dataPoints ([ex_s1, ex_s2] ! 1) ! 0) (entry_points ex_invent_entry)
       = Some (JNum 5)"
    by (simp add: last_match_age_def same_depth_def entry_points_def member_def
        ex_invent_entry_def ex_s2_def json_number_examples)
  have j: "(0::nat) < length (dataPoints ([ex_s1, ex_s2] ! 1))" by (simp add: ex_s2_def)
  have few: "length (section_ties ex_ties (id_sec ex_s2)) < 2"
    using ex_ties_S2 by (simp add: ex_s2_def)
  have t: "length (tl ex_ties) < 2" by (simp add: ex_ties_def)
  note null = unanchored_sections_follow_reply
    [of True ex_null_resp "[ex_s1, ex_s2]" ex_ties "[ex_s1, ex_s2_erased]" 1 ex_null_entry
        ex_s2 "Json ex_resp" None]
  note inv = unanchored_sections_follow_reply
    [of True ex_invent_resp "[ex_s1, ex_s2]" "tl ex_ties" "[ex_s1, ex_s2_invented]" 1 ex_invent_entry
        ex_s2 "Json ex_resp" None]
  have iv: "generateAgeModel True (Json ex_invent_resp) [ex_s1, ex_s2] (tl ex_ties)
      = Inr [ex_s1, ex_s2_invented]"
    using ex_invent_result by (simp add: generateAgeModel_def)
  have "\<forall>dp\<in>set (dataPoints ([ex_s1, ex_s2_erased] ! 1)). age dp = None"
    using null ex_null_result i le(1) na' by blast
  then have e: "map age (dataPoints ([ex_s1, ex_s2_erased] ! 1)) = [None]"
    by (simp add: ex_s2_erased_def)
  have g: "age (dataPoints ([ex_s1, ex_s2_invented] ! 1) ! 0) = Some (toFixed4 (json_number 5))"
    using inv iv i le(2) j lm by blast
  then have g': "age (dataPoints ([ex_s1, ex_s2_invented] ! 1) ! 0) = Some (Fin 5)"
    by (simp add: json_number_examples toFixed4_examples)
  have "\<forall>p\<in>set (entry_points (rule_entry ex_ties ex_s2)). \<not> numeric_age p"
    using null few by blast
  then have r: "map numeric_age (entry_points (rule_entry ex_ties ex_s2)) = [False]"
    by (simp add: entry_points_def member_def rule_entry_def ex_s2_def)
  have h: "handleGenerateAgeModel True (Json ex_resp) [ex_s1, ex_s2] (tl ex_ties) None = None"
    using inv t by blast
  have p: "map age (dataPoints ex_s2) = [Some (Fin 42)]" by (simp add: ex_s2_def)
  show ?thesis
    using ex_null_result i le na p e ex_invent_result lm g' few r t h by blast
qed

theorem delegate_invents_ages_counterexample:
  "generateAgeModel True (Json ex_invent_resp) [ex_s1, ex_s2] ex_ties = Inr [ex_s1, ex_s2_invented]
   \<and> section_ties ex_ties (id_sec ex_s2) = []
   \<and> age (dataPoints ex_s2_invented ! 0) = Some (Fin 5)"
  using ex_invent_result ex_ties_S2
  by (simp add: ex_s2_def ex_s2_invented_def)


section \<open>Entering data points\<close>





















































lemma ex_merged_at:
  "merged_at [ex_p5, ex_p15] [ex_row, ex_row_fresh, ex_row_again, ex_row_undated] (Some (Fin 5))
     = Some ex_p5_merged_twice"
  "merged_at [ex_p5, ex_p15] [ex_row, ex_row_fresh, ex_row_again, ex_row_undated] (Some (Fin 1))
     = Some ex_row_fresh"
  "merged_at [ex_p5, ex_p15] [ex_row, ex_row_fresh, ex_row_again, ex_row_undated] (Some (Fin 15))
     = Some ex_p15"
  "merged_at [ex_p5, ex_p15] [ex_row, ex_row_fresh, ex_row_again, ex_row_undated] None = None"
  by (simp_all add: merged_at_def merged_record_def rows_with_depth_def last_with_depth_def
      spread_merge_def empty_point_def ex_row_def ex_row_fresh_def ex_row_again_def
      ex_row_undated_def ex_p5_def ex_p15_def ex_p5_merged_twice_def)






end
